theory Spec2Isabelle
  imports Main "HOL-Library.Monad_Syntax"
begin

section \<open>The logger of debug.h\<close>

text \<open>
  debug.h is a header of macros over two file-scope variables and two helper functions.
  Each macro is embedded as the function its expansion computes. The state of the program
  is passed explicitly; the text handed to the C library is recorded, call by call, in the
  field \<open>io\<close>. A result \<open>None\<close> stands for a call whose behaviour C leaves undefined (or
  whose format lies outside the conversions modelled here).
\<close>

subsection \<open>Data\<close>

text \<open>\<^verbatim>\<open>typedef enum { LOG_TRACE, LOG_DEBUG, LOG_INFO, LOG_WARN, LOG_ERROR } LogLevel;\<close>\<close>

datatype LogLevel = LOG_TRACE | LOG_DEBUG | LOG_INFO | LOG_WARN | LOG_ERROR

text \<open>The integer value C gives each enumerator: they count up from zero in declaration order.\<close>

fun enum_value :: "LogLevel \<Rightarrow> int" where
  "enum_value LOG_TRACE = 0"
| "enum_value LOG_DEBUG = 1"
| "enum_value LOG_INFO = 2"
| "enum_value LOG_WARN = 3"
| "enum_value LOG_ERROR = 4"

text \<open>A stream written to: \<open>stderr\<close>, or the stream \<open>fopen\<close> returned for a path.\<close>

datatype stream = stderr | fopened string

text \<open>What the program asks of the C library's output functions, in order.\<close>

datatype event = Fprintf stream string | Fflush stream

text \<open>The variadic arguments of a printf-style call.\<close>

datatype arg = ArgStr string | ArgInt int

text \<open>\<^verbatim>\<open>struct tm\<close>, the fields \<open>strftime\<close> reads here: \<open>tm_year\<close> counts from 1900, \<open>tm_mon\<close> from 0.\<close>

record tm =
  tm_sec :: int
  tm_min :: int
  tm_hour :: int
  tm_mday :: int
  tm_mon :: int
  tm_year :: int

text \<open>
  What the program reads from its surroundings during one call: the broken-down local time
  that \<open>localtime(&now)\<close> yields, the bytes \<open>strftime\<close> leaves in its array when the
  result does not fit (C calls them indeterminate), which paths \<open>fopen\<close> can open, and
  the error number \<open>fopen\<close> leaves in \<open>errno\<close> when it cannot (POSIX; \<open>ENOENT\<close> is 2).
\<close>

record env =
  local_now :: tm
  indeterminate :: string
  can_open :: "string \<Rightarrow> bool"
  fopen_errno :: "string \<Rightarrow> int"

text \<open>
  The file-scope variables \<open>log_level\<close> (initially \<open>LOG_TRACE\<close>) and \<open>log_file\<close>
  (initially \<open>NULL\<close>, here \<open>None\<close>; an open stream is named by its path), the static array
  \<open>time_str\<close> of \<open>get_time_str\<close> read as a C string, \<open>errno\<close>, and the output so far.
\<close>

record state =
  log_level :: LogLevel
  log_file :: "string option"
  time_str :: string
  errno :: int
  io :: "event list"

definition initial_state :: state where
  "initial_state = \<lparr>log_level = LOG_TRACE, log_file = None, time_str = [], errno = 0, io = []\<rparr>"

subsection \<open>The C library, as far as the header uses it\<close>

definition digit_char :: "nat \<Rightarrow> char" where
  "digit_char d = ''0123456789'' ! d"

fun dec_nat :: "nat \<Rightarrow> string" where
  "dec_nat n = (if n < 10 then [digit_char n] else dec_nat (n div 10) @ [digit_char (n mod 10)])"

declare dec_nat.simps [simp del]

definition dec_int :: "int \<Rightarrow> string" where
  "dec_int i = (if i < 0 then CHR ''-'' # dec_nat (nat (- i)) else dec_nat (nat i))"

text \<open>
  The text \<open>printf\<close> produces for a format and its arguments: the conversions \<open>%s\<close>,
  \<open>%d\<close> and \<open>%%\<close>. A conversion without a matching argument is undefined in C;
  arguments left over are ignored, as C says.
\<close>

fun c_sprintf :: "string \<Rightarrow> arg list \<Rightarrow> string option" where
  "c_sprintf [] args = Some []"
| "c_sprintf [c] args = (if c = CHR ''%'' then None else Some [c])"
| "c_sprintf (c # d # fmt) args =
     (if c \<noteq> CHR ''%'' then map_option ((#) c) (c_sprintf (d # fmt) args)
      else if d = CHR ''%'' then map_option ((#) CHR ''%'') (c_sprintf fmt args)
      else if d = CHR ''s'' then
        (case args of ArgStr s # rest \<Rightarrow> map_option ((@) s) (c_sprintf fmt rest) | _ \<Rightarrow> None)
      else if d = CHR ''d'' then
        (case args of ArgInt i # rest \<Rightarrow> map_option ((@) (dec_int i)) (c_sprintf fmt rest)
         | _ \<Rightarrow> None)
      else None)"

definition fprintf :: "stream \<Rightarrow> string \<Rightarrow> arg list \<Rightarrow> state \<Rightarrow> state option" where
  "fprintf k fmt args s =
     (case c_sprintf fmt args of
        None \<Rightarrow> None
      | Some t \<Rightarrow> Some (s\<lparr>io := io s @ [Fprintf k t]\<rparr>))"

definition fflush :: "stream \<Rightarrow> state \<Rightarrow> state" where
  "fflush k s = s\<lparr>io := io s @ [Fflush k]\<rparr>"

text \<open>
  \<open>fopen(path, "a")\<close>: the stream; or \<open>NULL\<close>, with the error number stored in
  \<open>errno\<close>, when the path cannot be opened.
\<close>

definition fopen_a :: "env \<Rightarrow> string \<Rightarrow> state \<Rightarrow> string option \<times> state" where
  "fopen_a e path s =
     (if can_open e path then (Some path, s) else (None, s\<lparr>errno := fopen_errno e path\<rparr>))"

text \<open>A field printed in at least two digits, as \<open>%m %d %H %M %S\<close> do.\<close>

definition two_digits :: "int \<Rightarrow> string" where
  "two_digits i = (if 0 \<le> i \<and> i < 10 then CHR ''0'' # dec_int i else dec_int i)"

text \<open>The expansion of a \<open>strftime\<close> format: the conversions \<open>%Y %m %d %H %M %S %%\<close>.\<close>

fun strftime_text :: "string \<Rightarrow> tm \<Rightarrow> string option" where
  "strftime_text [] t = Some []"
| "strftime_text [c] t = (if c = CHR ''%'' then None else Some [c])"
| "strftime_text (c # d # fmt) t =
     (if c \<noteq> CHR ''%'' then map_option ((#) c) (strftime_text (d # fmt) t)
      else if d = CHR ''%'' then map_option ((#) CHR ''%'') (strftime_text fmt t)
      else if d = CHR ''Y'' then map_option ((@) (dec_int (tm_year t + 1900))) (strftime_text fmt t)
      else if d = CHR ''m'' then map_option ((@) (two_digits (tm_mon t + 1))) (strftime_text fmt t)
      else if d = CHR ''d'' then map_option ((@) (two_digits (tm_mday t))) (strftime_text fmt t)
      else if d = CHR ''H'' then map_option ((@) (two_digits (tm_hour t))) (strftime_text fmt t)
      else if d = CHR ''M'' then map_option ((@) (two_digits (tm_min t))) (strftime_text fmt t)
      else if d = CHR ''S'' then map_option ((@) (two_digits (tm_sec t))) (strftime_text fmt t)
      else None)"

text \<open>
  \<open>strftime(s, maxsize, format, t)\<close>, C11 7.27.3.5: when the text and its terminating null
  take no more than \<open>maxsize\<close> bytes, the text is stored and its length returned; otherwise
  zero is returned and the array's contents are indeterminate. At most \<open>maxsize\<close> bytes are
  written either way. The result is the return value and the array read as a C string.
\<close>

definition strftime :: "env \<Rightarrow> nat \<Rightarrow> string \<Rightarrow> tm \<Rightarrow> (nat \<times> string) option" where
  "strftime e maxsize fmt t =
     (case strftime_text fmt t of
        None \<Rightarrow> None
      | Some r \<Rightarrow>
          if length r + 1 \<le> maxsize then Some (length r, r)
          else Some (0, take maxsize (indeterminate e)))"

subsection \<open>The helper functions\<close>

text \<open>
  \<^verbatim>\<open>static const char *level_str[] = { "TRACE", "DEBUG", "INFO", "WARN", "ERROR" };
  return level_str[level];\<close>
  The parameter is the enumeration's integer value; an index outside the array is an
  out-of-bounds read, which C leaves undefined.
\<close>

definition level_str :: "string list" where
  "level_str = [''TRACE'', ''DEBUG'', ''INFO'', ''WARN'', ''ERROR'']"

definition get_log_level_str :: "int \<Rightarrow> string option" where
  "get_log_level_str level =
     (if 0 \<le> level \<and> level < int (length level_str) then Some (level_str ! nat level) else None)"

text \<open>
  \<^verbatim>\<open>static char time_str[20];
  time_t now = time(NULL);
  struct tm *t = localtime(&now);
  strftime(time_str, sizeof(time_str) - 1, "%Y-%m-%d %H:%M:%S", t);
  return time_str;\<close>
  The return value of \<open>strftime\<close> is discarded. Byte 19 of the array is never written and
  stays zero, so the array always holds a C string.
\<close>

definition sizeof_time_str :: nat where
  "sizeof_time_str = 20"

definition get_time_str :: "env \<Rightarrow> state \<Rightarrow> (string \<times> state) option" where
  "get_time_str e s =
     (case strftime e (sizeof_time_str - 1) ''%Y-%m-%d %H:%M:%S'' (local_now e) of
        None \<Rightarrow> None
      | Some (n, buf) \<Rightarrow> Some (buf, s\<lparr>time_str := buf\<rparr>))"

subsection \<open>The macros\<close>

text \<open>\<^verbatim>\<open>#define log_set_level(level) (log_level = (level))\<close>\<close>

definition log_set_level :: "LogLevel \<Rightarrow> state \<Rightarrow> state" where
  "log_set_level level s = s\<lparr>log_level := level\<rparr>"

text \<open>
  \<^verbatim>\<open>#define log_set_file(file) (log_file = fopen((file), "a"))\<close>
  An assignment expression: its value, which the caller may test, is the pointer stored.
  The result is that value and the new state.
\<close>

definition log_set_file :: "env \<Rightarrow> string \<Rightarrow> state \<Rightarrow> string option \<times> state" where
  "log_set_file e path s =
     (case fopen_a e path s of (fp, s1) \<Rightarrow> (fp, s1\<lparr>log_file := fp\<rparr>))"

text \<open>\<^verbatim>\<open>#define LOG_FMT "%s [%s] (%s:%d) "\<close>\<close>

definition LOG_FMT :: string where
  "LOG_FMT = ''%s [%s] (%s:%d) ''"

text \<open>
  \<^verbatim>\<open>#define LOG_ARGS(LOG_LVL) get_log_level_str(LOG_LVL), get_time_str(), __FILE__, __LINE__\<close>
  \<open>src\<close> and \<open>line\<close> are \<open>__FILE__\<close> and \<open>__LINE__\<close> at the place of the call.
\<close>

definition LOG_ARGS :: "env \<Rightarrow> string \<Rightarrow> int \<Rightarrow> LogLevel \<Rightarrow> state \<Rightarrow> (arg list \<times> state) option" where
  "LOG_ARGS e src line LOG_LVL s =
     do {
       name \<leftarrow> get_log_level_str (enum_value LOG_LVL);
       (stamp, s') \<leftarrow> get_time_str e s;
       Some ([ArgStr name, ArgStr stamp, ArgStr src, ArgInt line], s')
     }"

text \<open>
  \<^verbatim>\<open>#define log_log(level, ...) do {
      if (level >= log_level) {
          if (log_file) {
              fprintf(log_file, LOG_FMT, LOG_ARGS(level));
              fprintf(log_file, __VA_ARGS__);
              fprintf(log_file, "\n");
              fflush(log_file);
          } else {
              fprintf(stderr, LOG_FMT, LOG_ARGS(level));
              fprintf(stderr, __VA_ARGS__);
              fprintf(stderr, "\n");
          }
      }
  } while (0)\<close>
  \<open>fmt\<close> and \<open>args\<close> are the variadic part: the message format and its arguments.

  The macro pastes the text of its first argument into \<open>level >= log_level\<close> without
  parentheses, so how the test reads depends on the form of that argument. An enumerator,
  a variable, a call or anything in parentheses is compared as a whole. A conditional
  expression is not: \<open>c ? a : b >= log_level\<close> is \<open>c ? a : (b >= log_level)\<close> in C, since
  \<open>>=\<close> binds tighter than \<open>?:\<close>, and the \<open>if\<close> then tests \<open>a\<close> itself against zero when
  \<open>c\<close> holds. As a function argument in \<open>LOG_ARGS(level)\<close> the same text is one
  expression, with its own value.
\<close>

datatype level_arg = Primary LogLevel | Conditional bool level_arg level_arg

fun value_of :: "level_arg \<Rightarrow> LogLevel" where
  "value_of (Primary l) = l"
| "value_of (Conditional c a b) = (if c then value_of a else value_of b)"

text \<open>The controlling expression \<open>level >= log_level\<close> after the argument is pasted in.\<close>

fun level_test :: "level_arg \<Rightarrow> LogLevel \<Rightarrow> bool" where
  "level_test (Primary l) minimum = (enum_value l \<ge> enum_value minimum)"
| "level_test (Conditional c a b) minimum =
     (if c then enum_value (value_of a) \<noteq> 0 else level_test b minimum)"

definition log_log ::
  "env \<Rightarrow> string \<Rightarrow> int \<Rightarrow> level_arg \<Rightarrow> string \<Rightarrow> arg list \<Rightarrow> state \<Rightarrow> state option" where
  "log_log e src line level fmt args s =
     (if level_test level (log_level s) then
        (case log_file s of
           Some f \<Rightarrow>
             do {
               (prefix_args, s1) \<leftarrow> LOG_ARGS e src line (value_of level) s;
               s2 \<leftarrow> fprintf (fopened f) LOG_FMT prefix_args s1;
               s3 \<leftarrow> fprintf (fopened f) fmt args s2;
               s4 \<leftarrow> fprintf (fopened f) [CHR 0x0A] [] s3;
               Some (fflush (fopened f) s4)
             }
         | None \<Rightarrow>
             do {
               (prefix_args, s1) \<leftarrow> LOG_ARGS e src line (value_of level) s;
               s2 \<leftarrow> fprintf stderr LOG_FMT prefix_args s1;
               s3 \<leftarrow> fprintf stderr fmt args s2;
               fprintf stderr [CHR 0x0A] [] s3
             })
      else Some s)"

text \<open>\<^verbatim>\<open>#define log_trace(...) log_log(LOG_TRACE, __VA_ARGS__)\<close> and its four siblings.\<close>

definition log_trace :: "env \<Rightarrow> string \<Rightarrow> int \<Rightarrow> string \<Rightarrow> arg list \<Rightarrow> state \<Rightarrow> state option" where
  "log_trace e src line fmt args s = log_log e src line (Primary LOG_TRACE) fmt args s"

definition log_debug :: "env \<Rightarrow> string \<Rightarrow> int \<Rightarrow> string \<Rightarrow> arg list \<Rightarrow> state \<Rightarrow> state option" where
  "log_debug e src line fmt args s = log_log e src line (Primary LOG_DEBUG) fmt args s"

definition log_info :: "env \<Rightarrow> string \<Rightarrow> int \<Rightarrow> string \<Rightarrow> arg list \<Rightarrow> state \<Rightarrow> state option" where
  "log_info e src line fmt args s = log_log e src line (Primary LOG_INFO) fmt args s"

definition log_warn :: "env \<Rightarrow> string \<Rightarrow> int \<Rightarrow> string \<Rightarrow> arg list \<Rightarrow> state \<Rightarrow> state option" where
  "log_warn e src line fmt args s = log_log e src line (Primary LOG_WARN) fmt args s"

definition log_error :: "env \<Rightarrow> string \<Rightarrow> int \<Rightarrow> string \<Rightarrow> arg list \<Rightarrow> state \<Rightarrow> state option" where
  "log_error e src line fmt args s = log_log e src line (Primary LOG_ERROR) fmt args s"

text \<open>
  The guard macros end in \<open>goto error\<close>. A statement of the calling function either lets
  control pass to the statement after it or jumps to the function's label \<open>error\<close>.
\<close>

datatype control = Next | Goto_error

type_synonym stmt = "state \<Rightarrow> (control \<times> state) option"

text \<open>
  \<^verbatim>\<open>#define check(A, M, ...) if (!(A)) {
      log_error(M, ##__VA_ARGS__); errno = 0; goto error; }\<close>
\<close>

definition check :: "env \<Rightarrow> string \<Rightarrow> int \<Rightarrow> bool \<Rightarrow> string \<Rightarrow> arg list \<Rightarrow> stmt" where
  "check e src line A M args s =
     (if \<not> A then
        do {
          s1 \<leftarrow> log_error e src line M args s;
          Some (Goto_error, s1\<lparr>errno := 0\<rparr>)
        }
      else Some (Next, s))"

text \<open>
  \<^verbatim>\<open>#define check_mem(A) check((A), "Out of memory.")\<close>
  The argument is a pointer, null (\<open>None\<close>) or not; as a condition it is true when not null.
\<close>

definition check_mem :: "env \<Rightarrow> string \<Rightarrow> int \<Rightarrow> 'a option \<Rightarrow> stmt" where
  "check_mem e src line A = check e src line (A \<noteq> None) ''Out of memory.'' []"

text \<open>
  \<^verbatim>\<open>#define check_debug(A, M, ...) if (!(A)) { log_debug(M, ##__VA_ARGS__);
      errno = 0; goto error; }\<close>
\<close>

definition check_debug :: "env \<Rightarrow> string \<Rightarrow> int \<Rightarrow> bool \<Rightarrow> string \<Rightarrow> arg list \<Rightarrow> stmt" where
  "check_debug e src line A M args s =
     (if \<not> A then
        do {
          s1 \<leftarrow> log_debug e src line M args s;
          Some (Goto_error, s1\<lparr>errno := 0\<rparr>)
        }
      else Some (Next, s))"

subsection \<open>The calling function around a guard\<close>

text \<open>
  \<open>a; b\<close> in the calling function: \<open>b\<close> runs only when \<open>a\<close> lets control pass on.
\<close>

definition seq :: "stmt \<Rightarrow> stmt \<Rightarrow> stmt" where
  "seq a b s =
     (case a s of
        None \<Rightarrow> None
      | Some (Next, s') \<Rightarrow> b s'
      | Some (Goto_error, s') \<Rightarrow> Some (Goto_error, s'))"

text \<open>
  \<open>{ body  error: handler }\<close>: the code at the label runs when the body jumps to it, and
  also when the body runs to its end, as C lets control fall into a label.
\<close>

definition at_error_label :: "stmt \<Rightarrow> (state \<Rightarrow> 'r) \<Rightarrow> state \<Rightarrow> 'r option" where
  "at_error_label body handler s =
     (case body s of
        None \<Rightarrow> None
      | Some (c, s') \<Rightarrow> Some (handler s'))"

subsection \<open>Notions the properties are stated with\<close>

text \<open>The stream a record goes to: \<open>log_file\<close> when it is not null, else \<open>stderr\<close>.\<close>

definition active_sink :: "state \<Rightarrow> stream" where
  "active_sink s = (case log_file s of None \<Rightarrow> stderr | Some f \<Rightarrow> fopened f)"

text \<open>The events a step added to the output, and the text they put on one stream.\<close>

definition emitted :: "state \<Rightarrow> state \<Rightarrow> event list" where
  "emitted s s' = drop (length (io s)) (io s')"

fun written :: "stream \<Rightarrow> event list \<Rightarrow> string" where
  "written k [] = []"
| "written k (Fprintf k' t # evs) = (if k' = k then t @ written k evs else written k evs)"
| "written k (Fflush k' # evs) = written k evs"

fun is_flush :: "event \<Rightarrow> bool" where
  "is_flush (Fflush k) = True"
| "is_flush (Fprintf k t) = False"

text \<open>
  The output line in the specification's words:
  \<^verbatim>\<open><LEVEL_NAME> [<TIMESTAMP>] (<FILE>:<LINE>) <formatted message>\n\<close>
\<close>

definition spec_line :: "string \<Rightarrow> string \<Rightarrow> string \<Rightarrow> int \<Rightarrow> string \<Rightarrow> string" where
  "spec_line level_name timestamp src line message =
     level_name @ '' ['' @ timestamp @ ''] ('' @ src @ '':'' @ dec_int line @ '') '' @ message
       @ [CHR 0x0A]"

text \<open>
  What a program does with the logger between two calls of \<open>log_set_file\<close>: it logs and it
  sets the level.
\<close>

datatype action =
    Log env string int level_arg string "arg list"
  | Set_level LogLevel

fun well_formed :: "action \<Rightarrow> bool" where
  "well_formed (Log e src line level fmt args) = (c_sprintf fmt args \<noteq> None)"
| "well_formed (Set_level level) = True"

fun run :: "action list \<Rightarrow> state \<Rightarrow> state option" where
  "run [] s = Some s"
| "run (Log e src line level fmt args # rest) s =
     (case log_log e src line level fmt args s of None \<Rightarrow> None | Some s' \<Rightarrow> run rest s')"
| "run (Set_level level # rest) s = run rest (log_set_level level s)"

text \<open>
  An instance to evaluate on: 1 March 2024, 10:15:22 local time; a C library that, like
  glibc, stops before the conversion that does not fit; one path that can be opened, any
  other failing with \<open>ENOENT\<close>.
\<close>

definition example_env :: env where
  "example_env =
     \<lparr>local_now = \<lparr>tm_sec = 22, tm_min = 15, tm_hour = 10, tm_mday = 1, tm_mon = 2, tm_year = 124\<rparr>,
      indeterminate = ''2024-03-01 10:15:'',
      can_open = (\<lambda>path. path = ''app.log''),
      fopen_errno = (\<lambda>path. 2)\<rparr>"

section \<open>Properties\<close>

subsection \<open>Auxiliary facts\<close>

lemma level_name_of_enum:
  "get_log_level_str (enum_value l) =
     Some (case l of LOG_TRACE \<Rightarrow> ''TRACE'' | LOG_DEBUG \<Rightarrow> ''DEBUG'' | LOG_INFO \<Rightarrow> ''INFO''
           | LOG_WARN \<Rightarrow> ''WARN'' | LOG_ERROR \<Rightarrow> ''ERROR'')"
  by (cases l) (simp_all add: get_log_level_str_def level_str_def)

lemma prefix_text:
  "c_sprintf LOG_FMT [ArgStr name, ArgStr stamp, ArgStr src, ArgInt line] =
     Some (name @ '' ['' @ stamp @ ''] ('' @ src @ '':'' @ dec_int line @ '') '')"
  by (simp add: LOG_FMT_def)

lemma newline_text: "c_sprintf [CHR 0x0A] [] = Some [CHR 0x0A]"
  by simp

lemma stamp_text:
  "strftime_text ''%Y-%m-%d %H:%M:%S'' t =
     Some (dec_int (tm_year t + 1900) @ ''-'' @ two_digits (tm_mon t + 1) @ ''-'' @
           two_digits (tm_mday t) @ '' '' @ two_digits (tm_hour t) @ '':'' @
           two_digits (tm_min t) @ '':'' @ two_digits (tm_sec t))"
  by simp

lemma get_time_str_returns:
  "\<exists>stamp. get_time_str e s = Some (stamp, s\<lparr>time_str := stamp\<rparr>)"
  unfolding get_time_str_def strftime_def
  by (simp only: stamp_text option.case) (simp split: if_splits)

text \<open>One call that passes the filter, executed symbolically.\<close>

lemma log_log_passes:
  assumes pass: "level_test level (log_level s)"
    and msg: "c_sprintf fmt args = Some m"
    and name: "get_log_level_str (enum_value (value_of level)) = Some name"
    and stamp: "get_time_str e s = Some (stamp, s1)"
  shows "log_log e src line level fmt args s =
     Some (s\<lparr>time_str := stamp,
             io := io s @
               (case log_file s of
                  None \<Rightarrow>
                    [Fprintf stderr (name @ '' ['' @ stamp @ ''] ('' @ src @ '':'' @ dec_int line @ '') ''),
                     Fprintf stderr m, Fprintf stderr [CHR 0x0A]]
                | Some f \<Rightarrow>
                    [Fprintf (fopened f) (name @ '' ['' @ stamp @ ''] ('' @ src @ '':'' @ dec_int line @ '') ''),
                     Fprintf (fopened f) m, Fprintf (fopened f) [CHR 0x0A],
                     Fflush (fopened f)])\<rparr>)"
proof -
  from get_time_str_returns [of e s] stamp have s1: "s1 = s\<lparr>time_str := stamp\<rparr>"
    by auto
  have args: "LOG_ARGS e src line (value_of level) s =
      Some ([ArgStr name, ArgStr stamp, ArgStr src, ArgInt line], s\<lparr>time_str := stamp\<rparr>)"
    using name stamp s1 by (simp add: LOG_ARGS_def)
  show ?thesis
  proof (cases "log_file s")
    case None
    then show ?thesis
      using pass msg args
      by (simp add: log_log_def fprintf_def prefix_text newline_text)
  next
    case (Some f)
    then show ?thesis
      using pass msg args
      by (simp add: log_log_def fprintf_def fflush_def prefix_text newline_text)
  qed
qed

lemma log_log_filtered:
  "\<not> level_test level (log_level s) \<Longrightarrow> log_log e src line level fmt args s = Some s"
  by (simp add: log_log_def)

lemma emitted_append [simp]: "io s' = io s @ evs \<Longrightarrow> emitted s s' = evs"
  by (simp add: emitted_def)

lemma emitted_same [simp]: "emitted s s = []"
  by (simp add: emitted_def)

lemma example_stamp:
  "get_time_str example_env s = Some (''2024-03-01 10:15:'', s\<lparr>time_str := ''2024-03-01 10:15:''\<rparr>)"
  by (simp add: get_time_str_def strftime_def example_env_def sizeof_time_str_def
      two_digits_def dec_int_def dec_nat.simps digit_char_def)

lemma log_log_undefined:
  assumes pass: "level_test level (log_level s)"
    and msg: "c_sprintf fmt args = None"
  shows "log_log e src line level fmt args s = None"
proof -
  obtain stamp where stamp: "get_time_str e s = Some (stamp, s\<lparr>time_str := stamp\<rparr>)"
    using get_time_str_returns by blast
  have args: "LOG_ARGS e src line (value_of level) s \<noteq> None"
    using stamp by (simp add: LOG_ARGS_def level_name_of_enum)
  then obtain a s1 where "LOG_ARGS e src line (value_of level) s = Some (a, s1)" by auto
  then show ?thesis
    using pass msg
    by (cases "log_file s") (simp_all add: log_log_def fprintf_def split: option.splits)
qed

subsection \<open>Level filtering\<close>

text \<open>
  For a first argument that is compared as a whole (an enumerator, as in the five
  wrappers, a variable, anything in parentheses) the filter is the comparison of levels:
  below the minimum the call returns the state it was given, and otherwise text is written
  to the sink.
\<close>

lemma log_log_filter_on_plain_level:
  "(enum_value l < enum_value (log_level s) \<longrightarrow>
      log_log e src line (Primary l) fmt args s = Some s) \<and>
   (c_sprintf fmt args \<noteq> None \<longrightarrow>
      (\<exists>s'. log_log e src line (Primary l) fmt args s = Some s' \<and>
            (written (active_sink s) (emitted s s') \<noteq> [] \<longleftrightarrow>
               enum_value l \<ge> enum_value (log_level s))))"
proof (intro conjI impI)
  assume "enum_value l < enum_value (log_level s)"
  then show "log_log e src line (Primary l) fmt args s = Some s"
    by (simp add: log_log_filtered)
next
  assume "c_sprintf fmt args \<noteq> None"
  then obtain m where m: "c_sprintf fmt args = Some m" by auto
  obtain stamp where stamp: "get_time_str e s = Some (stamp, s\<lparr>time_str := stamp\<rparr>)"
    using get_time_str_returns by blast
  obtain name where name: "get_log_level_str (enum_value (value_of (Primary l))) = Some name"
    using level_name_of_enum by blast
  show "\<exists>s'. log_log e src line (Primary l) fmt args s = Some s' \<and>
            (written (active_sink s) (emitted s s') \<noteq> [] \<longleftrightarrow>
               enum_value l \<ge> enum_value (log_level s))"
  proof (cases "level_test (Primary l) (log_level s)")
    case True
    from log_log_passes [OF True m name stamp, of src line]
    show ?thesis using True
      by (cases "log_file s") (auto simp: active_sink_def)
  next
    case False
    then have "log_log e src line (Primary l) fmt args s = Some s"
      by (simp add: log_log_filtered)
    then show ?thesis using False by simp
  qed
qed

text \<open>
  Claim C1 says that for every minimum level and every message level passed to
  \<open>log_log\<close> a record is written if and only if the message level is greater than or
  equal to the minimum. It fails for a level passed as a conditional expression, because
  the macro does not parenthesise its parameter in the test. With \<open>c\<close> true and the
  minimum at Warn, \<open>log_log(c ? LOG_DEBUG : LOG_TRACE, "hello")\<close> writes a DEBUG record
  although Debug is below Warn; with the minimum at Trace,
  \<open>log_log(c ? LOG_TRACE : LOG_ERROR, "hello")\<close> writes nothing although Trace is not
  below Trace.
\<close>

theorem log_log_unparenthesised_level:
  "enum_value (value_of (Conditional True (Primary LOG_DEBUG) (Primary LOG_TRACE)))
     < enum_value (log_level (log_set_level LOG_WARN initial_state)) \<and>
   map_option io
     (log_log example_env ''x.c'' 10 (Conditional True (Primary LOG_DEBUG) (Primary LOG_TRACE))
        ''hello'' [] (log_set_level LOG_WARN initial_state))
     = Some [Fprintf stderr ''DEBUG [2024-03-01 10:15:] (x.c:10) '',
             Fprintf stderr ''hello'', Fprintf stderr [CHR 0x0A]] \<and>
   enum_value (value_of (Conditional True (Primary LOG_TRACE) (Primary LOG_ERROR)))
     \<ge> enum_value (log_level initial_state) \<and>
   log_log example_env ''x.c'' 10 (Conditional True (Primary LOG_TRACE) (Primary LOG_ERROR))
     ''hello'' [] initial_state = Some initial_state"
proof -
  let ?s = "log_set_level LOG_WARN initial_state"
  have s: "?s = \<lparr>log_level = LOG_WARN, log_file = None, time_str = [], errno = 0, io = []\<rparr>"
    by (simp add: log_set_level_def initial_state_def)
  have pass: "level_test (Conditional True (Primary LOG_DEBUG) (Primary LOG_TRACE)) (log_level ?s)"
    by simp
  have msg: "c_sprintf ''hello'' [] = Some ''hello''" by simp
  have name: "get_log_level_str
      (enum_value (value_of (Conditional True (Primary LOG_DEBUG) (Primary LOG_TRACE))))
      = Some ''DEBUG''"
    using level_name_of_enum [of LOG_DEBUG] by simp
  have written: "map_option io
     (log_log example_env ''x.c'' 10 (Conditional True (Primary LOG_DEBUG) (Primary LOG_TRACE))
        ''hello'' [] ?s)
     = Some [Fprintf stderr ''DEBUG [2024-03-01 10:15:] (x.c:10) '',
             Fprintf stderr ''hello'', Fprintf stderr [CHR 0x0A]]"
    using log_log_passes [OF pass msg name example_stamp, of "''x.c''" 10]
    by (simp add: s dec_int_def dec_nat.simps digit_char_def)
  have silent: "log_log example_env ''x.c'' 10
      (Conditional True (Primary LOG_TRACE) (Primary LOG_ERROR)) ''hello'' [] initial_state
      = Some initial_state"
    by (simp add: log_log_filtered)
  have below: "enum_value (value_of (Conditional True (Primary LOG_DEBUG) (Primary LOG_TRACE)))
      < enum_value (log_level ?s)"
    by (simp add: log_set_level_def)
  have not_below: "enum_value (value_of (Conditional True (Primary LOG_TRACE) (Primary LOG_ERROR)))
      \<ge> enum_value (log_level initial_state)"
    by (simp add: initial_state_def)
  from below written not_below silent show ?thesis
    by blast
qed

subsection \<open>The timestamp\<close>

lemma length_dec_nat_digit: "n < 10 \<Longrightarrow> length (dec_nat n) = 1"
  by (simp add: dec_nat.simps)

lemma length_dec_nat_step: "10 \<le> n \<Longrightarrow> length (dec_nat n) = Suc (length (dec_nat (n div 10)))"
  by (subst dec_nat.simps) simp

lemma length_dec_nat_four:
  assumes "1000 \<le> n" and "n < 10000"
  shows "length (dec_nat n) = 4"
proof -
  have "10 \<le> n" "10 \<le> n div 10" "10 \<le> n div 10 div 10" "n div 10 div 10 div 10 < 10"
    using assms by simp_all
  then show ?thesis
    by (simp add: length_dec_nat_step length_dec_nat_digit)
qed

lemma length_two_digits:
  assumes "0 \<le> i" and "i < 100"
  shows "length (two_digits i) = 2"
proof (cases "i < 10")
  case True
  with assms show ?thesis
    by (simp add: two_digits_def dec_int_def length_dec_nat_digit)
next
  case False
  with assms have "10 \<le> nat i" "nat i div 10 < 10" by simp_all
  with assms False show ?thesis
    by (simp add: two_digits_def dec_int_def length_dec_nat_step length_dec_nat_digit)
qed

lemma stamp_has_19_characters:
  assumes year: "1000 \<le> tm_year t + 1900" "tm_year t + 1900 \<le> 9999"
    and mon: "0 \<le> tm_mon t" "tm_mon t \<le> 11"
    and mday: "1 \<le> tm_mday t" "tm_mday t \<le> 31"
    and hour: "0 \<le> tm_hour t" "tm_hour t \<le> 23"
    and minute: "0 \<le> tm_min t" "tm_min t \<le> 59"
    and sec: "0 \<le> tm_sec t" "tm_sec t \<le> 60"
  shows "\<exists>r. strftime_text ''%Y-%m-%d %H:%M:%S'' t = Some r \<and> length r = 19"
proof -
  let ?r = "dec_int (tm_year t + 1900) @ ''-'' @ two_digits (tm_mon t + 1) @ ''-'' @
           two_digits (tm_mday t) @ '' '' @ two_digits (tm_hour t) @ '':'' @
           two_digits (tm_min t) @ '':'' @ two_digits (tm_sec t)"
  have y: "length (dec_int (tm_year t + 1900)) = 4"
    using year by (simp add: dec_int_def length_dec_nat_four)
  have f: "length (two_digits (tm_mon t + 1)) = 2" "length (two_digits (tm_mday t)) = 2"
    "length (two_digits (tm_hour t)) = 2" "length (two_digits (tm_min t)) = 2"
    "length (two_digits (tm_sec t)) = 2"
    using mon mday hour minute sec by (simp_all add: length_two_digits)
  have "length ?r = 19"
    using y f by simp
  moreover have "strftime_text ''%Y-%m-%d %H:%M:%S'' t = Some ?r"
    by (rule stamp_text)
  ultimately show ?thesis by blast
qed

lemma strftime_too_small:
  assumes rendered: "strftime_text fmt t = Some r" and len: "length r = 19"
  shows "strftime e (sizeof_time_str - 1) fmt t = Some (0, take 19 (indeterminate e))"
  unfolding strftime_def
  by (simp only: rendered option.case len) (simp add: sizeof_time_str_def)

text \<open>
  Claim C5 says that \<open>get_time_str\<close> returns the local time as the 19 characters
  \<open>YYYY-MM-DD HH:MM:SS\<close>. The code passes \<open>sizeof(time_str) - 1 = 19\<close> to \<open>strftime\<close>
  as the size of the array, and the 19 characters need 20 bytes with their terminating
  null. So for every local time with a four-digit year the text does not fit, \<open>strftime\<close>
  returns 0, and \<open>get_time_str\<close> returns what the library left in the array (at most 19
  indeterminate bytes), which does not depend on the time at all.
\<close>

theorem get_time_str_loses_the_time:
  assumes year: "1000 \<le> tm_year (local_now e) + 1900" "tm_year (local_now e) + 1900 \<le> 9999"
    and mon: "0 \<le> tm_mon (local_now e)" "tm_mon (local_now e) \<le> 11"
    and mday: "1 \<le> tm_mday (local_now e)" "tm_mday (local_now e) \<le> 31"
    and hour: "0 \<le> tm_hour (local_now e)" "tm_hour (local_now e) \<le> 23"
    and minute: "0 \<le> tm_min (local_now e)" "tm_min (local_now e) \<le> 59"
    and sec: "0 \<le> tm_sec (local_now e)" "tm_sec (local_now e) \<le> 60"
  shows "\<exists>r. strftime_text ''%Y-%m-%d %H:%M:%S'' (local_now e) = Some r \<and>
             length r = 19 \<and>
             strftime e (sizeof_time_str - 1) ''%Y-%m-%d %H:%M:%S'' (local_now e)
               = Some (0, take 19 (indeterminate e)) \<and>
             get_time_str e s
               = Some (take 19 (indeterminate e), s\<lparr>time_str := take 19 (indeterminate e)\<rparr>)"
proof -
  from stamp_has_19_characters [OF assms] obtain r where
    rendered: "strftime_text ''%Y-%m-%d %H:%M:%S'' (local_now e) = Some r" and len: "length r = 19"
    by blast
  note lib = strftime_too_small [OF rendered len, of e]
  have "get_time_str e s
      = Some (take 19 (indeterminate e), s\<lparr>time_str := take 19 (indeterminate e)\<rparr>)"
    unfolding get_time_str_def by (simp only: lib option.case prod.case)
  with rendered len lib show ?thesis by blast
qed

theorem get_time_str_loses_the_time_witness:
  "strftime_text ''%Y-%m-%d %H:%M:%S'' (local_now example_env) = Some ''2024-03-01 10:15:22'' \<and>
   strftime example_env (sizeof_time_str - 1) ''%Y-%m-%d %H:%M:%S'' (local_now example_env)
     = Some (0, ''2024-03-01 10:15:'') \<and>
   get_time_str example_env initial_state
     = Some (''2024-03-01 10:15:'', initial_state\<lparr>time_str := ''2024-03-01 10:15:''\<rparr>)"
proof -
  have rendered: "strftime_text ''%Y-%m-%d %H:%M:%S'' (local_now example_env) = Some ''2024-03-01 10:15:22''"
    by (simp add: example_env_def two_digits_def dec_int_def dec_nat.simps digit_char_def)
  have junk: "take 19 (indeterminate example_env) = ''2024-03-01 10:15:''"
    by (simp add: example_env_def)
  from get_time_str_loses_the_time [of example_env initial_state]
  have "\<exists>r. strftime_text ''%Y-%m-%d %H:%M:%S'' (local_now example_env) = Some r \<and>
             length r = 19 \<and>
             strftime example_env (sizeof_time_str - 1) ''%Y-%m-%d %H:%M:%S'' (local_now example_env)
               = Some (0, take 19 (indeterminate example_env)) \<and>
             get_time_str example_env initial_state
               = Some (take 19 (indeterminate example_env),
                       initial_state\<lparr>time_str := take 19 (indeterminate example_env)\<rparr>)"
    by (simp add: example_env_def)
  with rendered junk show ?thesis by simp
qed

subsection \<open>The line of a record\<close>

lemma written_one_sink:
  "written k [Fprintf k a, Fprintf k b, Fprintf k c] = a @ b @ c"
  "written k [Fprintf k a, Fprintf k b, Fprintf k c, Fflush k] = a @ b @ c"
  by simp_all

text \<open>The layout of the line, around whatever string \<open>get_time_str\<close> hands back.\<close>

lemma log_log_line_layout:
  assumes pass: "level_test level (log_level s)"
    and msg: "c_sprintf fmt args = Some message"
    and stamp: "get_time_str e s = Some (stamp, s1)"
  shows "\<exists>name s'.
           get_log_level_str (enum_value (value_of level)) = Some name \<and>
           log_log e src line level fmt args s = Some s' \<and>
           written (active_sink s) (emitted s s') = spec_line name stamp src line message \<and>
           (\<forall>k. k \<noteq> active_sink s \<longrightarrow> written k (emitted s s') = [])"
proof -
  obtain name where name: "get_log_level_str (enum_value (value_of level)) = Some name"
    using level_name_of_enum by blast
  note run = log_log_passes [OF pass msg name stamp, of src line]
  have "written (active_sink s) (emitted s (the (log_log e src line level fmt args s)))
          = spec_line name stamp src line message"
    by (cases "log_file s") (simp_all add: run active_sink_def spec_line_def)
  moreover have "k \<noteq> active_sink s \<Longrightarrow>
      written k (emitted s (the (log_log e src line level fmt args s))) = []" for k
    by (cases "log_file s") (simp_all add: run active_sink_def)
  ultimately show ?thesis
    using name run by auto
qed

text \<open>
  Claim C2 says the rendered line carries the timestamp in its square brackets, as in
  \<open>INFO [<timestamp>] (x.c:10) hello world\<close>. The layout is as the claim says, but the
  string in the brackets is the one \<open>get_time_str\<close> returns, and by the defect shown
  for claim C5 that is not the time: for every local time with a four-digit year the
  19 characters of the time are computed and do not fit, and the brackets hold the at most
  19 indeterminate bytes the library left in the array.
\<close>

theorem log_log_line_lacks_the_time:
  assumes pass: "level_test level (log_level s)"
    and msg: "c_sprintf fmt args = Some message"
    and year: "1000 \<le> tm_year (local_now e) + 1900" "tm_year (local_now e) + 1900 \<le> 9999"
    and mon: "0 \<le> tm_mon (local_now e)" "tm_mon (local_now e) \<le> 11"
    and mday: "1 \<le> tm_mday (local_now e)" "tm_mday (local_now e) \<le> 31"
    and hour: "0 \<le> tm_hour (local_now e)" "tm_hour (local_now e) \<le> 23"
    and minute: "0 \<le> tm_min (local_now e)" "tm_min (local_now e) \<le> 59"
    and sec: "0 \<le> tm_sec (local_now e)" "tm_sec (local_now e) \<le> 60"
  shows "\<exists>name r s'.
           get_log_level_str (enum_value (value_of level)) = Some name \<and>
           strftime_text ''%Y-%m-%d %H:%M:%S'' (local_now e) = Some r \<and> length r = 19 \<and>
           log_log e src line level fmt args s = Some s' \<and>
           written (active_sink s) (emitted s s')
             = spec_line name (take 19 (indeterminate e)) src line message \<and>
           (\<forall>k. k \<noteq> active_sink s \<longrightarrow> written k (emitted s s') = [])"
proof -
  from stamp_has_19_characters [OF year mon mday hour minute sec] obtain r where
    r: "strftime_text ''%Y-%m-%d %H:%M:%S'' (local_now e) = Some r" "length r = 19"
    by blast
  note lib = strftime_too_small [OF r, of e]
  have stamp: "get_time_str e s
      = Some (take 19 (indeterminate e), s\<lparr>time_str := take 19 (indeterminate e)\<rparr>)"
    unfolding get_time_str_def by (simp only: lib option.case prod.case)
  from log_log_line_layout [OF pass msg stamp, of src line] r show ?thesis
    by blast
qed

theorem log_log_line_lacks_the_time_witness:
  "level_test (Primary LOG_INFO) (log_level initial_state) \<and>
   c_sprintf ''hello %s'' [ArgStr ''world''] = Some ''hello world'' \<and>
   strftime_text ''%Y-%m-%d %H:%M:%S'' (local_now example_env) = Some ''2024-03-01 10:15:22'' \<and>
   (\<exists>s'. log_log example_env ''x.c'' 10 (Primary LOG_INFO) ''hello %s'' [ArgStr ''world'']
           initial_state = Some s' \<and>
         written stderr (emitted initial_state s')
           = ''INFO [2024-03-01 10:15:] (x.c:10) hello world'' @ [CHR 0x0A] \<and>
         written stderr (emitted initial_state s')
           \<noteq> spec_line ''INFO'' ''2024-03-01 10:15:22'' ''x.c'' 10 ''hello world'')"
proof -
  have pass: "level_test (Primary LOG_INFO) (log_level initial_state)"
    by (simp add: initial_state_def)
  have msg: "c_sprintf ''hello %s'' [ArgStr ''world''] = Some ''hello world''"
    by simp
  have rendered: "strftime_text ''%Y-%m-%d %H:%M:%S'' (local_now example_env)
      = Some ''2024-03-01 10:15:22''"
    by (simp add: example_env_def two_digits_def dec_int_def dec_nat.simps digit_char_def)
  have junk: "take 19 (indeterminate example_env) = ''2024-03-01 10:15:''"
    by (simp add: example_env_def)
  have "\<exists>name r s'.
           get_log_level_str (enum_value (value_of (Primary LOG_INFO))) = Some name \<and>
           strftime_text ''%Y-%m-%d %H:%M:%S'' (local_now example_env) = Some r \<and>
           length r = 19 \<and>
           log_log example_env ''x.c'' 10 (Primary LOG_INFO) ''hello %s'' [ArgStr ''world'']
             initial_state = Some s' \<and>
           written (active_sink initial_state) (emitted initial_state s')
             = spec_line name (take 19 (indeterminate example_env)) ''x.c'' 10 ''hello world'' \<and>
           (\<forall>k. k \<noteq> active_sink initial_state \<longrightarrow> written k (emitted initial_state s') = [])"
    by (rule log_log_line_lacks_the_time [OF pass msg]) (simp_all add: example_env_def)
  then obtain name s' where
    f: "get_log_level_str (enum_value (value_of (Primary LOG_INFO))) = Some name"
      "log_log example_env ''x.c'' 10 (Primary LOG_INFO) ''hello %s'' [ArgStr ''world'']
         initial_state = Some s'"
      "written (active_sink initial_state) (emitted initial_state s')
         = spec_line name (take 19 (indeterminate example_env)) ''x.c'' 10 ''hello world''"
    by blast
  from f(1) have name: "name = ''INFO''"
    using level_name_of_enum [of LOG_INFO] by simp
  have sink: "active_sink initial_state = stderr"
    by (simp add: active_sink_def initial_state_def)
  have line: "written stderr (emitted initial_state s')
      = ''INFO [2024-03-01 10:15:] (x.c:10) hello world'' @ [CHR 0x0A]"
    using f(3) unfolding name junk sink
    by (simp add: spec_line_def dec_int_def dec_nat.simps digit_char_def)
  then have "written stderr (emitted initial_state s')
      \<noteq> spec_line ''INFO'' ''2024-03-01 10:15:22'' ''x.c'' 10 ''hello world''"
    by (simp add: spec_line_def)
  with pass msg rendered f(2) line show ?thesis by blast
qed

subsection \<open>Flushing\<close>

text \<open>
  Claim C6. For every emitted record, the call flushes if and only if \<open>log_file\<close> is
  set: with a file sink the events of the call are the writes to that file followed at
  once by one flush of it; without one they are writes to \<open>stderr\<close> and no flush.
\<close>

theorem log_log_flush_iff_file_sink:
  assumes pass: "level_test level (log_level s)"
    and msg: "c_sprintf fmt args = Some message"
  shows "\<exists>s'. log_log e src line level fmt args s = Some s' \<and>
           ((\<exists>ev \<in> set (emitted s s'). is_flush ev) \<longleftrightarrow> log_file s \<noteq> None) \<and>
           (\<forall>f. log_file s = Some f \<longrightarrow>
              (\<exists>ws. emitted s s' = ws @ [Fflush (fopened f)] \<and> ws \<noteq> [] \<and>
                    (\<forall>w \<in> set ws. \<exists>t. w = Fprintf (fopened f) t))) \<and>
           (log_file s = None \<longrightarrow>
              emitted s s' \<noteq> [] \<and> (\<forall>w \<in> set (emitted s s'). \<exists>t. w = Fprintf stderr t))"
proof -
  obtain stamp where stamp: "get_time_str e s = Some (stamp, s\<lparr>time_str := stamp\<rparr>)"
    using get_time_str_returns by blast
  obtain name where name: "get_log_level_str (enum_value (value_of level)) = Some name"
    using level_name_of_enum by blast
  note run = log_log_passes [OF pass msg name stamp, of src line]
  show ?thesis
  proof (cases "log_file s")
    case None
    then show ?thesis using run by auto
  next
    case (Some f)
    let ?p = "name @ '' ['' @ stamp @ ''] ('' @ src @ '':'' @ dec_int line @ '') ''"
    let ?ws = "[Fprintf (fopened f) ?p, Fprintf (fopened f) message, Fprintf (fopened f) [CHR 0x0A]]"
    from Some run have em: "emitted s (the (log_log e src line level fmt args s))
        = ?ws @ [Fflush (fopened f)]"
      by simp
    have "\<forall>w \<in> set ?ws. \<exists>t. w = Fprintf (fopened f) t" by simp
    with em Some run show ?thesis
      by (auto intro!: exI [of _ ?ws])
  qed
qed

theorem log_log_flush_iff_file_sink_witness:
  "level_test (Primary LOG_WARN) (log_level (snd (log_set_file example_env ''app.log'' initial_state))) \<and>
   c_sprintf ''disk %d'' [ArgInt 7] = Some ''disk 7'' \<and>
   log_file (snd (log_set_file example_env ''app.log'' initial_state)) = Some ''app.log'' \<and>
   (\<exists>s' ws. log_log example_env ''main.c'' 42 (Primary LOG_WARN) ''disk %d'' [ArgInt 7]
              (snd (log_set_file example_env ''app.log'' initial_state)) = Some s' \<and>
            emitted (snd (log_set_file example_env ''app.log'' initial_state)) s'
              = ws @ [Fflush (fopened ''app.log'')])"
proof -
  let ?s = "snd (log_set_file example_env ''app.log'' initial_state)"
  have pass: "level_test (Primary LOG_WARN) (log_level ?s)"
    by (simp add: log_set_file_def fopen_a_def example_env_def initial_state_def)
  have msg: "c_sprintf ''disk %d'' [ArgInt 7] = Some ''disk 7''"
    by (simp add: dec_int_def dec_nat.simps digit_char_def)
  have sink: "log_file ?s = Some ''app.log''"
    by (simp add: log_set_file_def fopen_a_def example_env_def)
  from log_log_flush_iff_file_sink [OF pass msg, of example_env "''main.c''" 42] sink
  have "\<exists>s' ws. log_log example_env ''main.c'' 42 (Primary LOG_WARN) ''disk %d'' [ArgInt 7] ?s = Some s' \<and>
            emitted ?s s' = ws @ [Fflush (fopened ''app.log'')]"
    by blast
  with pass msg sink show ?thesis by blast
qed

lemma log_log_keeps_settings:
  assumes "log_log e src line level fmt args s = Some s'"
  shows "log_level s' = log_level s \<and> log_file s' = log_file s"
proof (cases "level_test level (log_level s)")
  case True
  obtain stamp where stamp: "get_time_str e s = Some (stamp, s\<lparr>time_str := stamp\<rparr>)"
    using get_time_str_returns by blast
  obtain name where name: "get_log_level_str (enum_value (value_of level)) = Some name"
    using level_name_of_enum by blast
  from assms log_log_undefined [OF True] obtain m where m: "c_sprintf fmt args = Some m"
    by (cases "c_sprintf fmt args") auto
  from log_log_passes [OF True m name stamp, of src line] assms show ?thesis
    by auto
next
  case False
  then have "log_log e src line level fmt args s = Some s"
    by (simp add: log_log_filtered)
  with assms show ?thesis by simp
qed

lemma log_log_returns:
  assumes "c_sprintf fmt args \<noteq> None"
  shows "\<exists>s'. log_log e src line level fmt args s = Some s'"
proof (cases "level_test level (log_level s)")
  case True
  obtain stamp where stamp: "get_time_str e s = Some (stamp, s\<lparr>time_str := stamp\<rparr>)"
    using get_time_str_returns by blast
  obtain name where name: "get_log_level_str (enum_value (value_of level)) = Some name"
    using level_name_of_enum by blast
  from assms obtain m where m: "c_sprintf fmt args = Some m" by auto
  from log_log_passes [OF True m name stamp, of src line] show ?thesis by blast
next
  case False
  then show ?thesis by (simp add: log_log_filtered)
qed

subsection \<open>Logging leaves the settings alone\<close>

text \<open>
  Claim C10. Every call of \<open>log_log\<close>, and hence of \<open>log_trace\<close>, \<open>log_debug\<close>,
  \<open>log_info\<close>, \<open>log_warn\<close> and \<open>log_error\<close>, leaves \<open>log_level\<close> and \<open>log_file\<close>
  as they were, whether or not a record was emitted; and a call whose message can be
  rendered does return.
\<close>

theorem log_log_frame:
  "(c_sprintf fmt args \<noteq> None \<longrightarrow> (\<exists>s'. log_log e src line level fmt args s = Some s')) \<and>
   (\<forall>s'. log_log e src line level fmt args s = Some s' \<or>
         log_trace e src line fmt args s = Some s' \<or>
         log_debug e src line fmt args s = Some s' \<or>
         log_info e src line fmt args s = Some s' \<or>
         log_warn e src line fmt args s = Some s' \<or>
         log_error e src line fmt args s = Some s' \<longrightarrow>
         log_level s' = log_level s \<and> log_file s' = log_file s)"
  using log_log_returns [of fmt args e src line level s] log_log_keeps_settings [of e src line _ fmt args s]
  unfolding log_trace_def log_debug_def log_info_def log_warn_def log_error_def
  by blast

theorem log_log_frame_witness:
  "c_sprintf ''started'' [] \<noteq> None \<and>
   log_info example_env ''main.c'' 7 ''started'' []
     (snd (log_set_file example_env ''app.log'' initial_state))
     = Some \<lparr>log_level = LOG_TRACE, log_file = Some ''app.log'', time_str = ''2024-03-01 10:15:'',
             errno = 0,
             io = [Fprintf (fopened ''app.log'') ''INFO [2024-03-01 10:15:] (main.c:7) '',
                   Fprintf (fopened ''app.log'') ''started'',
                   Fprintf (fopened ''app.log'') [CHR 0x0A],
                   Fflush (fopened ''app.log'')]\<rparr> \<and>
   log_level (snd (log_set_file example_env ''app.log'' initial_state)) = LOG_TRACE \<and>
   log_file (snd (log_set_file example_env ''app.log'' initial_state)) = Some ''app.log''"
proof -
  let ?s = "snd (log_set_file example_env ''app.log'' initial_state)"
  let ?s' = "\<lparr>log_level = LOG_TRACE, log_file = Some ''app.log'', time_str = ''2024-03-01 10:15:'',
             errno = 0,
             io = [Fprintf (fopened ''app.log'') ''INFO [2024-03-01 10:15:] (main.c:7) '',
                   Fprintf (fopened ''app.log'') ''started'',
                   Fprintf (fopened ''app.log'') [CHR 0x0A],
                   Fflush (fopened ''app.log'')]\<rparr>"
  have s: "?s = \<lparr>log_level = LOG_TRACE, log_file = Some ''app.log'', time_str = [], errno = 0, io = []\<rparr>"
    by (simp add: log_set_file_def fopen_a_def example_env_def initial_state_def)
  have pass: "level_test (Primary LOG_INFO) (log_level ?s)"
    by (simp add: s)
  have name: "get_log_level_str (enum_value (value_of (Primary LOG_INFO))) = Some ''INFO''"
    using level_name_of_enum [of LOG_INFO] by simp
  have m: "c_sprintf ''started'' [] = Some ''started''" by simp
  have run: "log_info example_env ''main.c'' 7 ''started'' [] ?s = Some ?s'"
    unfolding log_info_def
    using log_log_passes [OF pass m name example_stamp, of "''main.c''" 7]
    by (simp add: s dec_int_def dec_nat.simps digit_char_def)
  from log_log_frame [of "''started''" "[]" example_env "''main.c''" 7 "Primary LOG_INFO" ?s] run
  have "log_level ?s' = log_level ?s \<and> log_file ?s' = log_file ?s"
    by blast
  with m run show ?thesis by (simp add: s)
qed

subsection \<open>Level names\<close>

text \<open>
  Claim C8. \<open>get_log_level_str\<close> depends on its argument alone (it takes and returns no
  state). The five enumeration values map to TRACE, DEBUG, INFO, WARN and ERROR; every
  name is non-empty; two different values never share a name; and for an integer outside
  0..4 the array is read out of bounds, so the result is undefined.
\<close>

theorem get_log_level_str_mapping:
  "get_log_level_str (enum_value LOG_TRACE) = Some ''TRACE'' \<and>
   get_log_level_str (enum_value LOG_DEBUG) = Some ''DEBUG'' \<and>
   get_log_level_str (enum_value LOG_INFO) = Some ''INFO'' \<and>
   get_log_level_str (enum_value LOG_WARN) = Some ''WARN'' \<and>
   get_log_level_str (enum_value LOG_ERROR) = Some ''ERROR'' \<and>
   (\<exists>name. get_log_level_str (enum_value l) = Some name \<and> name \<noteq> []) \<and>
   (get_log_level_str (enum_value l) = get_log_level_str (enum_value l') \<longrightarrow> l = l') \<and>
   (i < 0 \<or> 4 < i \<longrightarrow> get_log_level_str i = None)"
proof -
  have "get_log_level_str (enum_value l) = get_log_level_str (enum_value l') \<Longrightarrow> l = l'"
    by (cases l; cases l') (simp_all add: get_log_level_str_def level_str_def)
  moreover have "\<exists>name. get_log_level_str (enum_value l) = Some name \<and> name \<noteq> []"
    by (cases l) (simp_all add: get_log_level_str_def level_str_def)
  moreover have "i < 0 \<or> 4 < i \<Longrightarrow> get_log_level_str i = None"
    by (auto simp: get_log_level_str_def level_str_def)
  ultimately show ?thesis
    by (simp add: get_log_level_str_def level_str_def)
qed

theorem get_log_level_str_mapping_witness:
  "((5::int) < 0 \<or> 4 < (5::int)) \<and> get_log_level_str 5 = None \<and>
   get_log_level_str (enum_value LOG_WARN) = get_log_level_str (enum_value LOG_WARN) \<and>
   get_log_level_str (enum_value LOG_WARN) = Some ''WARN''"
  using get_log_level_str_mapping [of LOG_WARN LOG_WARN 5] by simp

text \<open>A guard whose condition is false, executed symbolically.\<close>

lemma guard_log_fails:
  assumes pass: "level_test level (log_level s)"
    and msg: "c_sprintf M args = Some message"
    and stamp: "get_time_str e s = Some (stamp, s1)"
    and name: "get_log_level_str (enum_value (value_of level)) = Some name"
    and s': "log_log e src line level M args s = Some s'"
  shows "written (active_sink s) (emitted s s') = spec_line name stamp src line message"
    and "time_str s' = stamp" and "errno s' = errno s"
    and "log_level s' = log_level s" and "log_file s' = log_file s"
proof -
  note run = log_log_passes [OF pass msg name stamp, of src line]
  from run s' show "written (active_sink s) (emitted s s') = spec_line name stamp src line message"
    by (cases "log_file s") (auto simp: active_sink_def spec_line_def)
  from run s' show "time_str s' = stamp" "errno s' = errno s"
    "log_level s' = log_level s" "log_file s' = log_file s"
    by auto
qed

lemma emitted_errno [simp]: "emitted s (s'\<lparr>errno := n\<rparr>) = emitted s s'"
  by (simp add: emitted_def)

lemma error_passes: "level_test (Primary LOG_ERROR) (log_level s)"
  by (cases "log_level s") simp_all

lemma check_fails:
  assumes msg: "c_sprintf M args = Some message"
  shows "\<exists>stamp s'.
           get_time_str e s = Some (stamp, s\<lparr>time_str := stamp\<rparr>) \<and>
           check e src line False M args s = Some (Goto_error, s') \<and>
           written (active_sink s) (emitted s s') = spec_line ''ERROR'' stamp src line message \<and>
           (\<forall>k. k \<noteq> active_sink s \<longrightarrow> written k (emitted s s') = []) \<and>
           errno s' = 0 \<and> time_str s' = stamp \<and>
           log_level s' = log_level s \<and> log_file s' = log_file s"
proof -
  obtain stamp where stamp: "get_time_str e s = Some (stamp, s\<lparr>time_str := stamp\<rparr>)"
    using get_time_str_returns by blast
  have name: "get_log_level_str (enum_value (value_of (Primary LOG_ERROR))) = Some ''ERROR''"
    using level_name_of_enum [of LOG_ERROR] by simp
  note run = log_log_passes [OF error_passes msg name stamp, of src line]
  have other: "k \<noteq> active_sink s \<Longrightarrow>
      written k (emitted s (the (log_log e src line (Primary LOG_ERROR) M args s))) = []" for k
    by (cases "log_file s") (simp_all add: run active_sink_def)
  from guard_log_fails [OF error_passes msg stamp name run] other run stamp
  show ?thesis
    by (simp add: check_def log_error_def)
qed

subsection \<open>The guard macros\<close>

text \<open>
  Claim C3. \<open>check(A, M, ...)\<close> with a true condition does nothing: the state is
  unchanged and the statement after it runs. With a false condition (and a message that
  can be rendered) it writes exactly one record to the sink, the line with the level name
  ERROR and the message, and nothing to any other stream; then \<open>errno\<close> is zero; then
  control is at the label \<open>error\<close>: whatever statement follows the guard is not executed,
  and the code at the label runs once, on the state the guard left.
\<close>

theorem check_guard:
  "(A \<longrightarrow> check e src line A M args s = Some (Next, s) \<and>
          seq (check e src line A M args) rest s = rest s) \<and>
   (\<not> A \<and> c_sprintf M args = Some message \<longrightarrow>
      (\<exists>stamp s'.
         get_time_str e s = Some (stamp, s\<lparr>time_str := stamp\<rparr>) \<and>
         check e src line A M args s = Some (Goto_error, s') \<and>
         written (active_sink s) (emitted s s') = spec_line ''ERROR'' stamp src line message \<and>
         (\<forall>k. k \<noteq> active_sink s \<longrightarrow> written k (emitted s s') = []) \<and>
         errno s' = 0 \<and> log_level s' = log_level s \<and> log_file s' = log_file s \<and>
         seq (check e src line A M args) rest s = Some (Goto_error, s') \<and>
         at_error_label (seq (check e src line A M args) rest) handler s = Some (handler s')))"
proof (intro conjI impI)
  assume A
  then show "check e src line A M args s = Some (Next, s)"
    and "seq (check e src line A M args) rest s = rest s"
    by (simp_all add: check_def seq_def)
next
  assume "\<not> A \<and> c_sprintf M args = Some message"
  then have A: "A = False" and msg: "c_sprintf M args = Some message" by simp_all
  from check_fails [OF msg, of e s src line] obtain stamp s' where
    f: "get_time_str e s = Some (stamp, s\<lparr>time_str := stamp\<rparr>)"
      "check e src line False M args s = Some (Goto_error, s')"
      "written (active_sink s) (emitted s s') = spec_line ''ERROR'' stamp src line message"
      "\<forall>k. k \<noteq> active_sink s \<longrightarrow> written k (emitted s s') = []"
      "errno s' = 0" "log_level s' = log_level s" "log_file s' = log_file s"
    by blast
  from f(2) have "seq (check e src line False M args) rest s = Some (Goto_error, s')"
    and "at_error_label (seq (check e src line False M args) rest) handler s = Some (handler s')"
    by (simp_all add: seq_def at_error_label_def)
  with f show "\<exists>stamp s'.
         get_time_str e s = Some (stamp, s\<lparr>time_str := stamp\<rparr>) \<and>
         check e src line A M args s = Some (Goto_error, s') \<and>
         written (active_sink s) (emitted s s') = spec_line ''ERROR'' stamp src line message \<and>
         (\<forall>k. k \<noteq> active_sink s \<longrightarrow> written k (emitted s s') = []) \<and>
         errno s' = 0 \<and> log_level s' = log_level s \<and> log_file s' = log_file s \<and>
         seq (check e src line A M args) rest s = Some (Goto_error, s') \<and>
         at_error_label (seq (check e src line A M args) rest) handler s = Some (handler s')"
    unfolding A by blast
qed

theorem check_guard_witness:
  "\<not> False \<and> c_sprintf ''reason'' [] = Some ''reason'' \<and>
   (\<exists>s'. check example_env ''main.c'' 42 False ''reason'' [] (initial_state\<lparr>errno := 2\<rparr>)
           = Some (Goto_error, s') \<and>
         written stderr (emitted (initial_state\<lparr>errno := 2\<rparr>) s')
           = ''ERROR [2024-03-01 10:15:] (main.c:42) reason'' @ [CHR 0x0A] \<and>
         errno s' = 0 \<and>
         seq (check example_env ''main.c'' 42 False ''reason'' []) (\<lambda>s. None)
           (initial_state\<lparr>errno := 2\<rparr>) = Some (Goto_error, s'))"
proof -
  let ?s = "initial_state\<lparr>errno := 2\<rparr>"
  have msg: "c_sprintf ''reason'' [] = Some ''reason''" by simp
  from check_guard [of False example_env "''main.c''" 42 "''reason''" "[]" ?s "\<lambda>s. None" "''reason''"] msg
  obtain stamp s' where
    f: "get_time_str example_env ?s = Some (stamp, ?s\<lparr>time_str := stamp\<rparr>)"
      "check example_env ''main.c'' 42 False ''reason'' [] ?s = Some (Goto_error, s')"
      "written (active_sink ?s) (emitted ?s s') = spec_line ''ERROR'' stamp ''main.c'' 42 ''reason''"
      "errno s' = 0"
      "seq (check example_env ''main.c'' 42 False ''reason'' []) (\<lambda>s. None) ?s = Some (Goto_error, s')"
    by blast
  from f(1) have stamp: "stamp = ''2024-03-01 10:15:''"
    by (simp add: example_stamp)
  have "written stderr (emitted ?s s') = ''ERROR [2024-03-01 10:15:] (main.c:42) reason'' @ [CHR 0x0A]"
    using f(3) unfolding stamp
    by (simp add: active_sink_def initial_state_def spec_line_def dec_int_def dec_nat.simps
        digit_char_def)
  with f msg show ?thesis by blast
qed

text \<open>
  Claim C7, as amended. With a false condition \<open>check_debug\<close> clears \<open>errno\<close> and
  jumps to \<open>error\<close> as \<open>check\<close> does, but it logs through \<open>log_debug\<close>, so the level
  filter applies to it: when \<open>log_level\<close> is Trace or Debug it writes the line that
  \<open>check\<close> writes with DEBUG in place of ERROR, and leaves the same state otherwise;
  when \<open>log_level\<close> is Info, Warn or Error it writes nothing at all, while \<open>check\<close> still
  writes its Error record.
\<close>

theorem check_debug_guard:
  assumes msg: "c_sprintf M args = Some message"
  shows "\<exists>stamp s1.
           get_time_str e s = Some (stamp, s\<lparr>time_str := stamp\<rparr>) \<and>
           check e src line False M args s = Some (Goto_error, s1) \<and>
           written (active_sink s) (emitted s s1) = spec_line ''ERROR'' stamp src line message \<and>
           (if enum_value (log_level s) \<le> enum_value LOG_DEBUG
            then \<exists>s2. check_debug e src line False M args s = Some (Goto_error, s2) \<and>
                      written (active_sink s) (emitted s s2)
                        = spec_line ''DEBUG'' stamp src line message \<and>
                      s2\<lparr>io := io s1\<rparr> = s1
            else check_debug e src line False M args s = Some (Goto_error, s\<lparr>errno := 0\<rparr>)) \<and>
           seq (check_debug e src line False M args) rest s
             = check_debug e src line False M args s"
proof -
  obtain stamp where stamp: "get_time_str e s = Some (stamp, s\<lparr>time_str := stamp\<rparr>)"
    using get_time_str_returns by blast
  have error: "get_log_level_str (enum_value (value_of (Primary LOG_ERROR))) = Some ''ERROR''"
    using level_name_of_enum [of LOG_ERROR] by simp
  have debug: "get_log_level_str (enum_value (value_of (Primary LOG_DEBUG))) = Some ''DEBUG''"
    using level_name_of_enum [of LOG_DEBUG] by simp
  note run_error = log_log_passes [OF error_passes msg error stamp, of src line]
  define s1 where "s1 = (the (log_log e src line (Primary LOG_ERROR) M args s))\<lparr>errno := 0\<rparr>"
  have c: "check e src line False M args s = Some (Goto_error, s1)"
    by (simp add: check_def log_error_def run_error s1_def)
  have w1: "written (active_sink s) (emitted s s1) = spec_line ''ERROR'' stamp src line message"
    using guard_log_fails(1) [OF error_passes msg stamp error run_error]
    by (simp add: s1_def run_error)
  show ?thesis
  proof (cases "enum_value (log_level s) \<le> enum_value LOG_DEBUG")
    case True
    then have pass: "level_test (Primary LOG_DEBUG) (log_level s)" by simp
    note run_debug = log_log_passes [OF pass msg debug stamp, of src line]
    define s2 where "s2 = (the (log_log e src line (Primary LOG_DEBUG) M args s))\<lparr>errno := 0\<rparr>"
    have d: "check_debug e src line False M args s = Some (Goto_error, s2)"
      by (simp add: check_debug_def log_debug_def run_debug s2_def)
    have w2: "written (active_sink s) (emitted s s2) = spec_line ''DEBUG'' stamp src line message"
      using guard_log_fails(1) [OF pass msg stamp debug run_debug]
      by (simp add: s2_def run_debug)
    have same: "s2\<lparr>io := io s1\<rparr> = s1"
      by (simp add: s1_def s2_def run_error run_debug)
    have jump: "seq (check_debug e src line False M args) rest s
        = check_debug e src line False M args s"
      by (simp add: seq_def d)
    from stamp c w1 d w2 same jump True show ?thesis by auto
  next
    case False
    then have d: "check_debug e src line False M args s = Some (Goto_error, s\<lparr>errno := 0\<rparr>)"
      by (simp add: check_debug_def log_debug_def log_log_filtered)
    have jump: "seq (check_debug e src line False M args) rest s
        = check_debug e src line False M args s"
      by (simp add: seq_def d)
    from stamp c w1 d jump False show ?thesis by auto
  qed
qed

theorem check_debug_guard_witness:
  "c_sprintf ''reason'' [] = Some ''reason'' \<and>
   (\<exists>s2. check_debug example_env ''main.c'' 42 False ''reason'' [] initial_state
           = Some (Goto_error, s2) \<and>
         written stderr (emitted initial_state s2)
           = ''DEBUG [2024-03-01 10:15:] (main.c:42) reason'' @ [CHR 0x0A])"
proof -
  have msg: "c_sprintf ''reason'' [] = Some ''reason''" by simp
  have pass: "enum_value (log_level initial_state) \<le> enum_value LOG_DEBUG"
    by (simp add: initial_state_def)
  from check_debug_guard [OF msg, of example_env initial_state "''main.c''" 42 "\<lambda>s. None"] pass
  obtain stamp s2 where
    f: "get_time_str example_env initial_state = Some (stamp, initial_state\<lparr>time_str := stamp\<rparr>)"
      "check_debug example_env ''main.c'' 42 False ''reason'' [] initial_state = Some (Goto_error, s2)"
      "written (active_sink initial_state) (emitted initial_state s2)
         = spec_line ''DEBUG'' stamp ''main.c'' 42 ''reason''"
    by auto
  from f(1) have stamp: "stamp = ''2024-03-01 10:15:''"
    by (simp add: example_stamp)
  have "written stderr (emitted initial_state s2)
      = ''DEBUG [2024-03-01 10:15:] (main.c:42) reason'' @ [CHR 0x0A]"
    using f(3) unfolding stamp
    by (simp add: active_sink_def initial_state_def spec_line_def dec_int_def dec_nat.simps
        digit_char_def)
  with f msg show ?thesis by blast
qed

text \<open>
  Claim C7 as stated fails: with \<open>log_level\<close> at Info, \<open>check_debug\<close> with a false
  condition jumps to \<open>error\<close> without emitting any record, so there is no DEBUG token to
  compare with the ERROR record that \<open>check\<close> emits in the same state.
\<close>

theorem check_debug_silent_counterexample:
  "map_option fst (check_debug example_env ''main.c'' 42 False ''reason'' []
      (log_set_level LOG_INFO initial_state)) = Some Goto_error \<and>
   map_option (io \<circ> snd) (check_debug example_env ''main.c'' 42 False ''reason'' []
      (log_set_level LOG_INFO initial_state)) = Some [] \<and>
   map_option (io \<circ> snd) (check example_env ''main.c'' 42 False ''reason'' []
      (log_set_level LOG_INFO initial_state))
     = Some [Fprintf stderr ''ERROR [2024-03-01 10:15:] (main.c:42) '',
             Fprintf stderr ''reason'', Fprintf stderr [CHR 0x0A]]"
proof -
  let ?s = "log_set_level LOG_INFO initial_state"
  have s: "?s = \<lparr>log_level = LOG_INFO, log_file = None, time_str = [], errno = 0, io = []\<rparr>"
    by (simp add: log_set_level_def initial_state_def)
  have msg: "c_sprintf ''reason'' [] = Some ''reason''" by simp
  have error: "get_log_level_str (enum_value (value_of (Primary LOG_ERROR))) = Some ''ERROR''"
    using level_name_of_enum [of LOG_ERROR] by simp
  have "check_debug example_env ''main.c'' 42 False ''reason'' [] ?s
      = Some (Goto_error, ?s\<lparr>errno := 0\<rparr>)"
    by (simp add: check_debug_def log_debug_def log_log_filtered s)
  moreover have "map_option (io \<circ> snd) (check example_env ''main.c'' 42 False ''reason'' [] ?s)
     = Some [Fprintf stderr ''ERROR [2024-03-01 10:15:] (main.c:42) '',
             Fprintf stderr ''reason'', Fprintf stderr [CHR 0x0A]]"
    using log_log_passes [OF error_passes msg error example_stamp,
        where s = ?s and src = "''main.c''" and line = 42]
    by (simp add: check_def log_error_def s dec_int_def dec_nat.simps digit_char_def)
  ultimately show ?thesis by (simp add: s)
qed

text \<open>
  Claim C9, as amended. \<open>check_mem(A)\<close> is \<open>check\<close> on the pointer with the fixed
  message \<open>Out of memory.\<close>, full stop included: a non-null pointer does nothing; a null
  pointer writes one Error record whose message is \<open>Out of memory.\<close>, clears \<open>errno\<close>
  and jumps to \<open>error\<close>.
\<close>

theorem check_mem_guard:
  "check_mem e src line p s = check e src line (p \<noteq> None) ''Out of memory.'' [] s \<and>
   (p \<noteq> None \<longrightarrow> check_mem e src line p s = Some (Next, s)) \<and>
   (p = None \<longrightarrow>
      (\<exists>stamp s'.
         get_time_str e s = Some (stamp, s\<lparr>time_str := stamp\<rparr>) \<and>
         check_mem e src line p s = Some (Goto_error, s') \<and>
         written (active_sink s) (emitted s s')
           = spec_line ''ERROR'' stamp src line ''Out of memory.'' \<and>
         errno s' = 0 \<and>
         seq (check_mem e src line p) rest s = Some (Goto_error, s')))"
proof (intro conjI impI)
  show "check_mem e src line p s = check e src line (p \<noteq> None) ''Out of memory.'' [] s"
    by (simp add: check_mem_def)
next
  assume "p \<noteq> None"
  then show "check_mem e src line p s = Some (Next, s)"
    by (simp add: check_mem_def check_def)
next
  assume null: "p = None"
  have msg: "c_sprintf ''Out of memory.'' [] = Some ''Out of memory.''"
    by simp
  from check_fails [OF msg, of e s src line] obtain stamp s' where
    f: "get_time_str e s = Some (stamp, s\<lparr>time_str := stamp\<rparr>)"
      "check e src line False ''Out of memory.'' [] s = Some (Goto_error, s')"
      "written (active_sink s) (emitted s s') = spec_line ''ERROR'' stamp src line ''Out of memory.''"
      "errno s' = 0"
    by blast
  from f(2) null have m: "check_mem e src line p s = Some (Goto_error, s')"
    by (simp add: check_mem_def)
  then have "seq (check_mem e src line p) rest s = Some (Goto_error, s')"
    by (simp add: seq_def)
  with f m show "\<exists>stamp s'.
         get_time_str e s = Some (stamp, s\<lparr>time_str := stamp\<rparr>) \<and>
         check_mem e src line p s = Some (Goto_error, s') \<and>
         written (active_sink s) (emitted s s')
           = spec_line ''ERROR'' stamp src line ''Out of memory.'' \<and>
         errno s' = 0 \<and>
         seq (check_mem e src line p) rest s = Some (Goto_error, s')"
    by blast
qed

theorem check_mem_guard_witness:
  "(None :: nat option) = None \<and>
   (\<exists>s'. check_mem example_env ''main.c'' 42 (None :: nat option) initial_state
           = Some (Goto_error, s') \<and>
         written stderr (emitted initial_state s')
           = ''ERROR [2024-03-01 10:15:] (main.c:42) Out of memory.'' @ [CHR 0x0A] \<and>
         errno s' = 0) \<and>
   Some (4096 :: nat) \<noteq> None \<and>
   check_mem example_env ''main.c'' 42 (Some (4096 :: nat)) initial_state
     = Some (Next, initial_state)"
proof -
  from check_mem_guard [of example_env "''main.c''" 42 "None :: nat option" initial_state "\<lambda>s. None"]
  obtain stamp s' where
    f: "get_time_str example_env initial_state = Some (stamp, initial_state\<lparr>time_str := stamp\<rparr>)"
      "check_mem example_env ''main.c'' 42 (None :: nat option) initial_state = Some (Goto_error, s')"
      "written (active_sink initial_state) (emitted initial_state s')
         = spec_line ''ERROR'' stamp ''main.c'' 42 ''Out of memory.''"
      "errno s' = 0"
    by blast
  from f(1) have stamp: "stamp = ''2024-03-01 10:15:''"
    by (simp add: example_stamp)
  have "written stderr (emitted initial_state s')
      = ''ERROR [2024-03-01 10:15:] (main.c:42) Out of memory.'' @ [CHR 0x0A]"
    using f(3) unfolding stamp
    by (simp add: active_sink_def initial_state_def spec_line_def dec_int_def dec_nat.simps
        digit_char_def)
  moreover have "check_mem example_env ''main.c'' 42 (Some (4096 :: nat)) initial_state
     = Some (Next, initial_state)"
    using check_mem_guard [of example_env "''main.c''" 42 "Some (4096 :: nat)" initial_state "\<lambda>s. None"]
    by blast
  ultimately show ?thesis using f by blast
qed

text \<open>
  Claim C9 as stated names the message \<open>Out of memory\<close>. On a null pointer
  \<open>check_mem\<close> and \<open>check\<close> with that message write different text: the macro's string
  literal ends in a full stop.
\<close>

theorem check_mem_message_counterexample:
  "map_option (io \<circ> snd) (check_mem example_env ''main.c'' 42 (None :: nat option) initial_state)
     = Some [Fprintf stderr ''ERROR [2024-03-01 10:15:] (main.c:42) '',
             Fprintf stderr ''Out of memory.'', Fprintf stderr [CHR 0x0A]] \<and>
   map_option (io \<circ> snd) (check example_env ''main.c'' 42 False ''Out of memory'' [] initial_state)
     = Some [Fprintf stderr ''ERROR [2024-03-01 10:15:] (main.c:42) '',
             Fprintf stderr ''Out of memory'', Fprintf stderr [CHR 0x0A]] \<and>
   check_mem example_env ''main.c'' 42 (None :: nat option) initial_state
     \<noteq> check example_env ''main.c'' 42 False ''Out of memory'' [] initial_state"
proof -
  have error: "get_log_level_str (enum_value (value_of (Primary LOG_ERROR))) = Some ''ERROR''"
    using level_name_of_enum [of LOG_ERROR] by simp
  have a: "map_option (io \<circ> snd)
      (check_mem example_env ''main.c'' 42 (None :: nat option) initial_state)
     = Some [Fprintf stderr ''ERROR [2024-03-01 10:15:] (main.c:42) '',
             Fprintf stderr ''Out of memory.'', Fprintf stderr [CHR 0x0A]]"
    using log_log_passes [OF error_passes _ error example_stamp,
        where s = initial_state and src = "''main.c''" and line = 42
          and fmt = "''Out of memory.''" and args = "[]" and m = "''Out of memory.''"]
    by (simp add: check_mem_def check_def log_error_def initial_state_def dec_int_def
        dec_nat.simps digit_char_def)
  have b: "map_option (io \<circ> snd)
      (check example_env ''main.c'' 42 False ''Out of memory'' [] initial_state)
     = Some [Fprintf stderr ''ERROR [2024-03-01 10:15:] (main.c:42) '',
             Fprintf stderr ''Out of memory'', Fprintf stderr [CHR 0x0A]]"
    using log_log_passes [OF error_passes _ error example_stamp,
        where s = initial_state and src = "''main.c''" and line = 42
          and fmt = "''Out of memory''" and args = "[]" and m = "''Out of memory''"]
    by (simp add: check_def log_error_def initial_state_def dec_int_def
        dec_nat.simps digit_char_def)
  have "check_mem example_env ''main.c'' 42 (None :: nat option) initial_state
     \<noteq> check example_env ''main.c'' 42 False ''Out of memory'' [] initial_state"
  proof
    assume "check_mem example_env ''main.c'' 42 (None :: nat option) initial_state
      = check example_env ''main.c'' 42 False ''Out of memory'' [] initial_state"
    with a b show False by simp
  qed
  with a b show ?thesis by blast
qed

subsection \<open>Logging without a file\<close>

lemma run_without_file:
  assumes "log_file s = None" and "\<forall>a \<in> set acts. well_formed a"
  shows "\<exists>s1 evs. run acts s = Some s1 \<and> log_file s1 = None \<and> io s1 = io s @ evs \<and>
           (\<forall>ev \<in> set evs. \<exists>t. ev = Fprintf stderr t)"
  using assms
proof (induction acts arbitrary: s)
  case Nil
  then show ?case by simp
next
  case (Cons a acts)
  show ?case
  proof (cases a)
    case (Log e src line level fmt args)
    with Cons.prems obtain m where m: "c_sprintf fmt args = Some m" by auto
    obtain stamp where stamp: "get_time_str e s = Some (stamp, s\<lparr>time_str := stamp\<rparr>)"
      using get_time_str_returns by blast
    obtain name where name: "get_log_level_str (enum_value (value_of level)) = Some name"
      using level_name_of_enum by blast
    have "\<exists>s' evs. log_log e src line level fmt args s = Some s' \<and> log_file s' = None \<and>
        io s' = io s @ evs \<and> (\<forall>ev \<in> set evs. \<exists>t. ev = Fprintf stderr t)"
    proof (cases "level_test level (log_level s)")
      case True
      from log_log_passes [OF True m name stamp, of src line] Cons.prems(1)
      show ?thesis by simp
    next
      case False
      then have "log_log e src line level fmt args s = Some s"
        by (simp add: log_log_filtered)
      with Cons.prems(1) show ?thesis by simp
    qed
    then obtain s' evs where step: "log_log e src line level fmt args s = Some s'"
      "log_file s' = None" "io s' = io s @ evs" "\<forall>ev \<in> set evs. \<exists>t. ev = Fprintf stderr t"
      by blast
    from Cons.IH [OF step(2)] Cons.prems(2) obtain s1 evs' where
      rest: "run acts s' = Some s1" "log_file s1 = None" "io s1 = io s' @ evs'"
        "\<forall>ev \<in> set evs'. \<exists>t. ev = Fprintf stderr t"
      by auto
    have "run (a # acts) s = Some s1" using Log step(1) rest(1) by simp
    moreover have "io s1 = io s @ (evs @ evs')" using step(3) rest(3) by simp
    moreover have "\<forall>ev \<in> set (evs @ evs'). \<exists>t. ev = Fprintf stderr t"
      using step(4) rest(4) by auto
    ultimately show ?thesis using rest(2) by blast
  next
    case (Set_level level)
    have "log_file (log_set_level level s) = None"
      using Cons.prems(1) by (simp add: log_set_level_def)
    from Cons.IH [OF this] Cons.prems(2) obtain s1 evs where
      rest: "run acts (log_set_level level s) = Some s1" "log_file s1 = None"
        "io s1 = io (log_set_level level s) @ evs"
        "\<forall>ev \<in> set evs. \<exists>t. ev = Fprintf stderr t"
      by auto
    then show ?thesis using Set_level by (auto simp: log_set_level_def)
  qed
qed

lemma log_log_line_on_stderr:
  assumes null: "log_file s = None"
    and pass: "level_test level (log_level s)"
    and msg: "c_sprintf fmt args = Some message"
  shows "\<exists>name stamp s'.
           get_log_level_str (enum_value (value_of level)) = Some name \<and>
           get_time_str e s = Some (stamp, s\<lparr>time_str := stamp\<rparr>) \<and>
           log_log e src line level fmt args s = Some s' \<and>
           written stderr (emitted s s') = spec_line name stamp src line message \<and>
           (\<forall>k. k \<noteq> stderr \<longrightarrow> written k (emitted s s') = [])"
proof -
  obtain stamp where stamp: "get_time_str e s = Some (stamp, s\<lparr>time_str := stamp\<rparr>)"
    using get_time_str_returns by blast
  obtain name where name: "get_log_level_str (enum_value (value_of level)) = Some name"
    using level_name_of_enum by blast
  from log_log_passes [OF pass msg name stamp, of src line] null stamp name
  show ?thesis
    by (simp add: spec_line_def)
qed

subsection \<open>A sink that cannot be opened\<close>

text \<open>
  Claim C4, as amended. When \<open>log_set_file\<close> is given a path that cannot be opened, the
  macro reports nothing and acts on nothing itself: it writes no output and control goes
  on. The failure reaches the caller only as the value of the macro expression, the null
  pointer, and as the error number \<open>fopen\<close> left in \<open>errno\<close>. The null pointer is stored
  in \<open>log_file\<close>, whatever sink was set before. From then on, through any further logging
  and level setting, \<open>log_file\<close> stays null, everything written goes to \<open>stderr\<close>, and
  every \<open>log_log\<close> call that passes the macro's level test writes its record to
  \<open>stderr\<close> and to no other stream.
\<close>

theorem log_set_file_failure_falls_back:
  assumes closed: "\<not> can_open e path"
    and wf: "\<forall>a \<in> set acts. well_formed a"
  shows "log_set_file e path s = (None, s\<lparr>log_file := None, errno := fopen_errno e path\<rparr>) \<and>
         (\<exists>s1 evs.
            run acts (snd (log_set_file e path s)) = Some s1 \<and> log_file s1 = None \<and>
            io s1 = io s @ evs \<and> (\<forall>ev \<in> set evs. \<exists>t. ev = Fprintf stderr t) \<and>
            (\<forall>e' src line level fmt args message.
               level_test level (log_level s1) \<and> c_sprintf fmt args = Some message \<longrightarrow>
               (\<exists>name stamp s2.
                  get_log_level_str (enum_value (value_of level)) = Some name \<and>
                  get_time_str e' s1 = Some (stamp, s1\<lparr>time_str := stamp\<rparr>) \<and>
                  log_log e' src line level fmt args s1 = Some s2 \<and>
                  written stderr (emitted s1 s2) = spec_line name stamp src line message \<and>
                  (\<forall>k. k \<noteq> stderr \<longrightarrow> written k (emitted s1 s2) = []))))"
proof -
  have result: "log_set_file e path s
      = (None, s\<lparr>log_file := None, errno := fopen_errno e path\<rparr>)"
    using closed by (simp add: log_set_file_def fopen_a_def)
  then have null: "log_file (snd (log_set_file e path s)) = None" by simp
  from run_without_file [OF null wf] obtain s1 evs where
    r: "run acts (snd (log_set_file e path s)) = Some s1" "log_file s1 = None"
      "io s1 = io (snd (log_set_file e path s)) @ evs"
      "\<forall>ev \<in> set evs. \<exists>t. ev = Fprintf stderr t"
    by blast
  from r(3) result have "io s1 = io s @ evs" by simp
  with result r log_log_line_on_stderr [OF r(2)] show ?thesis by blast
qed

theorem log_set_file_failure_falls_back_witness:
  "\<not> can_open example_env ''/no/such/dir/x.log'' \<and>
   well_formed (Log example_env ''main.c'' 5 (Primary LOG_INFO) ''to the file'' []) \<and>
   well_formed (Set_level LOG_WARN) \<and>
   log_file (snd (log_set_file example_env ''app.log'' initial_state)) = Some ''app.log'' \<and>
   log_set_file example_env ''/no/such/dir/x.log''
     (snd (log_set_file example_env ''app.log'' initial_state))
     = (None, \<lparr>log_level = LOG_TRACE, log_file = None, time_str = [], errno = 2, io = []\<rparr>) \<and>
   (\<exists>s1 s2.
      run [Log example_env ''main.c'' 5 (Primary LOG_INFO) ''to the file'' [], Set_level LOG_WARN]
        (snd (log_set_file example_env ''/no/such/dir/x.log''
          (snd (log_set_file example_env ''app.log'' initial_state)))) = Some s1 \<and>
      log_log example_env ''main.c'' 9 (Primary LOG_ERROR) ''failed %d'' [ArgInt 3] s1 = Some s2 \<and>
      written stderr (emitted s1 s2)
        = ''ERROR [2024-03-01 10:15:] (main.c:9) failed 3'' @ [CHR 0x0A] \<and>
      written (fopened ''app.log'') (emitted s1 s2) = [])"
proof -
  let ?acts = "[Log example_env ''main.c'' 5 (Primary LOG_INFO) ''to the file'' [],
    Set_level LOG_WARN]"
  let ?s = "snd (log_set_file example_env ''app.log'' initial_state)"
  have s: "?s = \<lparr>log_level = LOG_TRACE, log_file = Some ''app.log'', time_str = [], errno = 0,
      io = []\<rparr>"
    by (simp add: log_set_file_def fopen_a_def example_env_def initial_state_def)
  have closed: "\<not> can_open example_env ''/no/such/dir/x.log''"
    by (simp add: example_env_def)
  have wf: "\<forall>a \<in> set ?acts. well_formed a"
    by simp
  have before: "log_file ?s = Some ''app.log''"
    by (simp add: s)
  have msg: "c_sprintf ''failed %d'' [ArgInt 3] = Some ''failed 3''"
    by (simp add: dec_int_def dec_nat.simps digit_char_def)
  from log_set_file_failure_falls_back [OF closed wf, of ?s]
  obtain s1 where
    a: "log_set_file example_env ''/no/such/dir/x.log'' ?s
        = (None, ?s\<lparr>log_file := None, errno := fopen_errno example_env ''/no/such/dir/x.log''\<rparr>)"
    and r: "run ?acts (snd (log_set_file example_env ''/no/such/dir/x.log'' ?s)) = Some s1"
    and each: "\<forall>e' src line level fmt args message.
               level_test level (log_level s1) \<and> c_sprintf fmt args = Some message \<longrightarrow>
               (\<exists>name stamp s2.
                  get_log_level_str (enum_value (value_of level)) = Some name \<and>
                  get_time_str e' s1 = Some (stamp, s1\<lparr>time_str := stamp\<rparr>) \<and>
                  log_log e' src line level fmt args s1 = Some s2 \<and>
                  written stderr (emitted s1 s2) = spec_line name stamp src line message \<and>
                  (\<forall>k. k \<noteq> stderr \<longrightarrow> written k (emitted s1 s2) = []))"
    by blast
  from each error_passes [of s1] msg obtain name stamp s2 where
    f: "get_log_level_str (enum_value (value_of (Primary LOG_ERROR))) = Some name"
      "get_time_str example_env s1 = Some (stamp, s1\<lparr>time_str := stamp\<rparr>)"
      "log_log example_env ''main.c'' 9 (Primary LOG_ERROR) ''failed %d'' [ArgInt 3] s1 = Some s2"
      "written stderr (emitted s1 s2) = spec_line name stamp ''main.c'' 9 ''failed 3''"
      "\<forall>k. k \<noteq> stderr \<longrightarrow> written k (emitted s1 s2) = []"
    by blast
  from f(1) have name: "name = ''ERROR''"
    using level_name_of_enum [of LOG_ERROR] by simp
  from f(2) have stamp: "stamp = ''2024-03-01 10:15:''"
    by (simp add: example_stamp)
  have line: "written stderr (emitted s1 s2)
      = ''ERROR [2024-03-01 10:15:] (main.c:9) failed 3'' @ [CHR 0x0A]"
    using f(4) unfolding name stamp
    by (simp add: spec_line_def dec_int_def dec_nat.simps digit_char_def)
  from f(5) have quiet: "written (fopened ''app.log'') (emitted s1 s2) = []"
    by simp
  have "?s\<lparr>log_file := None, errno := fopen_errno example_env ''/no/such/dir/x.log''\<rparr>
      = \<lparr>log_level = LOG_TRACE, log_file = None, time_str = [], errno = 2, io = []\<rparr>"
    by (simp only: s) (simp add: example_env_def)
  with a have result: "log_set_file example_env ''/no/such/dir/x.log'' ?s
     = (None, \<lparr>log_level = LOG_TRACE, log_file = None, time_str = [], errno = 2, io = []\<rparr>)"
    by simp
  have "well_formed (Log example_env ''main.c'' 5 (Primary LOG_INFO) ''to the file'' [])"
    and "well_formed (Set_level LOG_WARN)"
    by simp_all
  with closed before result r f(3) line quiet show ?thesis
    by blast
qed

text \<open>
  Claim C4 as stated says that no error is surfaced to the caller. The macro is an
  assignment expression whose value the caller can test: at a path that cannot be opened
  it evaluates to the null pointer and \<open>errno\<close> holds the error number of \<open>fopen\<close>, here
  2, where a call that succeeds evaluates to the stream and leaves \<open>errno\<close> at 0.
\<close>

theorem log_set_file_failure_visible_counterexample:
  "fst (log_set_file example_env ''/no/such/dir/x.log'' initial_state) = None \<and>
   errno (snd (log_set_file example_env ''/no/such/dir/x.log'' initial_state)) = 2 \<and>
   fst (log_set_file example_env ''app.log'' initial_state) = Some ''app.log'' \<and>
   errno (snd (log_set_file example_env ''app.log'' initial_state)) = 0"
  by (simp add: log_set_file_def fopen_a_def example_env_def initial_state_def)

end
